theory Spec2Isabelle
  imports Complex_Main "HOL-Library.Word" "HOL-Library.Sublist"
begin

section \<open>JavaScript strings\<close>

text \<open>
  A JavaScript string is a sequence of UTF-16 code units. \<open>ascii\<close> turns an ASCII
  literal into such a sequence; code units beyond ASCII are written as numbers.
\<close>

type_synonym jsstring = "16 word list"

definition ascii :: "string \<Rightarrow> jsstring" where
  "ascii s = map (\<lambda>c. of_nat (of_char c)) s"

text \<open>
  \<open>WhiteSpace\<close> and \<open>LineTerminator\<close> of ECMAScript, the code units that
  \<open>String.prototype.trim\<close> strips from both ends.
\<close>

definition is_white :: "16 word \<Rightarrow> bool" where
  "is_white c \<longleftrightarrow>
     c = 0x9 \<or> c = 0xA \<or> c = 0xB \<or> c = 0xC \<or> c = 0xD \<or> c = 0x20 \<or> c = 0xA0 \<or>
     c = 0x1680 \<or> (0x2000 \<le> c \<and> c \<le> 0x200A) \<or> c = 0x2028 \<or> c = 0x2029 \<or>
     c = 0x202F \<or> c = 0x205F \<or> c = 0x3000 \<or> c = 0xFEFF"

definition trim :: "jsstring \<Rightarrow> jsstring" where
  "trim s = rev (dropWhile is_white (rev (dropWhile is_white s)))"

text \<open>\<open>s.substr(start, len)\<close> for non-negative \<open>start\<close> and \<open>len\<close>.\<close>

definition substr :: "jsstring \<Rightarrow> nat \<Rightarrow> nat \<Rightarrow> jsstring" where
  "substr s start len = take len (drop start s)"

text \<open>Truthiness of a string, and of a value that is a string, \<open>null\<close> or \<open>undefined\<close>.\<close>

definition truthy :: "jsstring \<Rightarrow> bool" where
  "truthy s \<longleftrightarrow> s \<noteq> []"

definition truthy_opt :: "jsstring option \<Rightarrow> bool" where
  "truthy_opt v = (case v of None \<Rightarrow> False | Some s \<Rightarrow> truthy s)"

section \<open>Data model (types.ts)\<close>

text \<open>
  A JavaScript number that is not a page number or a timestamp is kept as the 64 bits
  of its IEEE 754 encoding; the model stores and compares such numbers and never
  computes with them.
\<close>

type_synonym double = "64 word"

record DOMRect =
  rect_x :: double
  rect_y :: double
  rect_width :: double
  rect_height :: double

text \<open>
  \<open>interface Highlight\<close>. The fields \<open>id\<close> and \<open>text\<close> are renamed because the
  names are taken; \<open>comment?\<close> is an optional field.
\<close>

record Highlight =
  id_hl :: jsstring
  page :: int
  text_hl :: jsstring
  color :: jsstring
  comment :: "jsstring option"
  rects :: "DOMRect list"
  timestamp :: int

text \<open>A parsed JSON value.\<close>

datatype json =
    JNull
  | JBool bool
  | JNum double
  | JStr jsstring
  | JArr "json list"
  | JObj "(jsstring \<times> json) list"

datatype Theme = light | sepia | dark

datatype ViewMode = single | double

text \<open>The document handle of the rendering library: only its page count is read.\<close>

record pdf =
  pdf_numPages :: int

section \<open>Component state (App.tsx)\<close>

text \<open>
  One field for each \<open>useState\<close> of the component, and the text of the browser's
  selection (\<open>window.getSelection()\<close>), which the handlers clear.
\<close>

record app_state =
  pdfDoc :: "pdf option"
  numPages :: int
  currentPage :: int
  highlights :: "Highlight list"
  selectedText :: jsstring
  isDictionaryLoading :: bool
  dictionaryResult :: "json option"
  showAnnotationModal :: bool
  activeNote :: jsstring
  editingHighlightId :: "jsstring option"
  theme :: Theme
  viewMode :: ViewMode
  scale :: double
  windowSelection :: jsstring

text \<open>The number \<open>1.2\<close>.\<close>

definition scale_init :: double where
  "scale_init = 0x3FF3333333333333"

definition init_state :: "app_state" where
  "init_state =
     \<lparr> pdfDoc = None, numPages = 0, currentPage = 1, highlights = [],
       selectedText = [], isDictionaryLoading = False, dictionaryResult = None,
       showAnnotationModal = False, activeNote = [], editingHighlightId = None,
       theme = light, viewMode = double, scale = scale_init, windowSelection = [] \<rparr>"

text \<open>
  What a handler reads from outside the component: the text of
  \<open>Math.random().toString(36)\<close> and the value of \<open>Date.now()\<close>.
\<close>

record env =
  random36 :: jsstring
  now :: int

subsection \<open>Loading a document\<close>

text \<open>
  \<open>onFileChange\<close>, from the point where the file has been read and opened:
  \<open>None\<close> is the event without a file.
\<close>

definition onFileChange :: "pdf option \<Rightarrow> app_state \<Rightarrow> app_state" where
  "onFileChange file s =
     (case file of
        None \<Rightarrow> s
      | Some p \<Rightarrow> s\<lparr>pdfDoc := Some p, numPages := pdf_numPages p, currentPage := 1\<rparr>)"

subsection \<open>Text selection\<close>

text \<open>
  \<open>handleMouseUp\<close>; the argument is the text of \<open>window.getSelection()\<close>
  at the event, \<open>None\<close> when there is no selection object.
\<close>

definition handleMouseUp :: "jsstring option \<Rightarrow> app_state \<Rightarrow> app_state" where
  "handleMouseUp selection s =
     (case selection of
        None \<Rightarrow> s\<lparr>selectedText := [], windowSelection := []\<rparr>
      | Some sel \<Rightarrow>
          if length (trim sel) > 0
          then s\<lparr>selectedText := sel, windowSelection := sel\<rparr>
          else s\<lparr>selectedText := [], windowSelection := sel\<rparr>)"

subsection \<open>Highlights and annotations\<close>

definition closeAnnotationModal :: "app_state \<Rightarrow> app_state" where
  "closeAnnotationModal s =
     s\<lparr>showAnnotationModal := False, editingHighlightId := None, activeNote := [],
       selectedText := [], windowSelection := []\<rparr>"

definition new_id :: "env \<Rightarrow> jsstring" where
  "new_id e = substr (random36 e) 2 9"

definition saveHighlight :: "env \<Rightarrow> app_state \<Rightarrow> app_state" where
  "saveHighlight e s =
     closeAnnotationModal
       (if truthy_opt (editingHighlightId s)
        then s\<lparr>highlights :=
                 map (\<lambda>h. if Some (id_hl h) = editingHighlightId s
                           then h\<lparr>comment := Some (activeNote s)\<rparr> else h)
                   (highlights s)\<rparr>
        else s\<lparr>highlights :=
                 \<lparr> id_hl = new_id e, page = currentPage s, text_hl = selectedText s,
                   color = ascii ''bg-stone-100'', comment = Some (activeNote s),
                   rects = [], timestamp = now e \<rparr> # highlights s\<rparr>)"

definition addHighlight :: "env \<Rightarrow> jsstring \<Rightarrow> app_state \<Rightarrow> app_state" where
  "addHighlight e c s =
     s\<lparr>highlights :=
         \<lparr> id_hl = new_id e, page = currentPage s, text_hl = selectedText s,
           color = c, comment = None, rects = [], timestamp = now e \<rparr> # highlights s,
       selectedText := [], windowSelection := []\<rparr>"

definition openEditModal :: "Highlight \<Rightarrow> app_state \<Rightarrow> app_state" where
  "openEditModal h s =
     s\<lparr>selectedText := text_hl h,
       activeNote := (case comment h of None \<Rightarrow> [] | Some c \<Rightarrow> if truthy c then c else []),
       editingHighlightId := Some (id_hl h),
       showAnnotationModal := True\<rparr>"

text \<open>The handler of the trash button of the card of the record with id \<open>i\<close>.\<close>

definition deleteHighlight :: "jsstring \<Rightarrow> app_state \<Rightarrow> app_state" where
  "deleteHighlight i s = s\<lparr>highlights := filter (\<lambda>x. id_hl x \<noteq> i) (highlights s)\<rparr>"

subsection \<open>Navigation\<close>

definition step_of :: "ViewMode \<Rightarrow> int" where
  "step_of m = (if m = double then 2 else 1)"

definition prevPage :: "app_state \<Rightarrow> app_state" where
  "prevPage s = s\<lparr>currentPage := max (currentPage s - step_of (viewMode s)) 1\<rparr>"

definition nextPage :: "app_state \<Rightarrow> app_state" where
  "nextPage s = s\<lparr>currentPage := min (currentPage s + step_of (viewMode s)) (numPages s)\<rparr>"

section \<open>Rendering (App.tsx)\<close>

text \<open>
  A canvas element: \<open>has_context\<close> says whether \<open>getContext('2d')\<close> gives a context.
  The calls made to the rendering library and the canvas are collected in a trace.
\<close>

record canvas =
  canvas_id :: nat
  has_context :: bool

datatype effect =
    GetPage int
  | Resize nat int double
  | Render nat int double

text \<open>
  \<open>renderPage\<close>. \<open>getPage\<close> of the library rejects a page number outside the
  document; the call then ends after the request.
\<close>

definition renderPage :: "app_state \<Rightarrow> int \<Rightarrow> canvas option \<Rightarrow> effect list" where
  "renderPage s pageNumber cv =
     (case pdfDoc s of
        None \<Rightarrow> []
      | Some d \<Rightarrow>
          (case cv of
             None \<Rightarrow> []
           | Some c \<Rightarrow>
               if pageNumber > numPages s \<or> pageNumber < 1 then []
               else GetPage pageNumber #
                 (if pageNumber < 1 \<or> pageNumber > pdf_numPages d then []
                  else if \<not> has_context c then []
                  else [Resize (canvas_id c) pageNumber (scale s),
                        Render (canvas_id c) pageNumber (scale s)])))"

text \<open>The effect that renders after a change of document, page, scale or view mode.\<close>

definition render_effect ::
  "app_state \<Rightarrow> canvas option \<Rightarrow> canvas option \<Rightarrow> effect list" where
  "render_effect s canvasRef1 canvasRef2 =
     (if pdfDoc s \<noteq> None
      then renderPage s (currentPage s) canvasRef1 @
           (if viewMode s = double \<and> currentPage s + 1 \<le> numPages s
            then renderPage s (currentPage s + 1) canvasRef2 else [])
      else [])"

section \<open>Lookup client (geminiService.ts)\<close>

datatype schema =
    TString
  | TArray schema
  | TObject "(jsstring \<times> schema) list" "jsstring list"

record request =
  model :: jsstring
  contents :: jsstring
  responseMimeType :: jsstring
  responseSchema :: schema

record response =
  response_text :: "jsstring option"

datatype api_error = Rejected

definition request_for :: "jsstring \<Rightarrow> request" where
  "request_for txt =
     \<lparr> model = ascii ''gemini-3-flash-preview'',
       contents =
         ascii ''Analyze the following word or short phrase: '' @ [0x22] @ txt @ [0x22] @
         ascii ''. Provide its concise meaning in Portuguese and at least 3 synonyms in Portuguese. Format the response as JSON.'',
       responseMimeType = ascii ''application/json'',
       responseSchema =
         TObject [(ascii ''word'', TString), (ascii ''meaning'', TString),
                  (ascii ''synonyms'', TArray TString)]
                 [ascii ''word'', ascii ''meaning'', ascii ''synonyms''] \<rparr>"

definition not_found_message :: jsstring where
  "not_found_message =
     ascii ''N'' @ [0xE3] @ ascii ''o foi poss'' @ [0xED] @
     ascii ''vel encontrar a defini'' @ [0xE7, 0xE3] @ ascii ''o.''"

definition fallback :: "jsstring \<Rightarrow> json" where
  "fallback txt =
     JObj [(ascii ''word'', JStr txt), (ascii ''meaning'', JStr not_found_message),
           (ascii ''synonyms'', JArr [])]"

text \<open>
  \<open>JSON.parse\<close> turns its argument into a string first: \<open>response.text\<close> is a
  string or \<open>undefined\<close>, and \<open>undefined\<close> becomes the text \<open>undefined\<close>.
\<close>

definition js_to_string :: "jsstring option \<Rightarrow> jsstring" where
  "js_to_string v = (case v of None \<Rightarrow> ascii ''undefined'' | Some t \<Rightarrow> t)"

text \<open>
  \<open>getWordInsights\<close>. The service call \<open>generateContent\<close> and \<open>JSON.parse\<close> are
  parameters: the first answers or rejects, the second gives \<open>None\<close> where it throws.
  A rejected service call is outside the \<open>try\<close> and rejects the lookup.
\<close>

definition getWordInsights ::
  "(request \<Rightarrow> api_error + response) \<Rightarrow> (jsstring \<Rightarrow> json option) \<Rightarrow> jsstring
     \<Rightarrow> api_error + json" where
  "getWordInsights generateContent JSON_parse txt =
     (case generateContent (request_for txt) of
        Inl err \<Rightarrow> Inl err
      | Inr resp \<Rightarrow>
          (case JSON_parse (js_to_string (response_text resp)) of
             Some data \<Rightarrow> Inr data
           | None \<Rightarrow> Inr (fallback txt)))"

text \<open>
  \<open>fetchDictionary\<close>, the lookup taken as one step: a rejected lookup leaves the
  loading flag set.
\<close>

definition fetchDictionary ::
  "(request \<Rightarrow> api_error + response) \<Rightarrow> (jsstring \<Rightarrow> json option) \<Rightarrow>
     app_state \<Rightarrow> app_state" where
  "fetchDictionary generateContent JSON_parse s =
     (if \<not> truthy (selectedText s) then s
      else case getWordInsights generateContent JSON_parse (selectedText s) of
             Inl err \<Rightarrow> s\<lparr>isDictionaryLoading := True\<rparr>
           | Inr result \<Rightarrow> s\<lparr>dictionaryResult := Some result, isDictionaryLoading := False\<rparr>)"

section \<open>User interface events (App.tsx)\<close>

record color_def =
  name :: jsstring
  bg :: jsstring
  text_class :: jsstring
  border :: jsstring

definition COLORS :: "color_def list" where
  "COLORS =
     [\<lparr>name = ascii ''Yellow'', bg = ascii ''bg-yellow-200'',
        text_class = ascii ''text-yellow-900'', border = ascii ''border-yellow-400''\<rparr>,
      \<lparr>name = ascii ''Blue'', bg = ascii ''bg-blue-200'',
        text_class = ascii ''text-blue-900'', border = ascii ''border-blue-400''\<rparr>,
      \<lparr>name = ascii ''Green'', bg = ascii ''bg-green-200'',
        text_class = ascii ''text-green-900'', border = ascii ''border-green-400''\<rparr>,
      \<lparr>name = ascii ''Pink'', bg = ascii ''bg-pink-200'',
        text_class = ascii ''text-pink-900'', border = ascii ''border-pink-400''\<rparr>]"

text \<open>
  An element handles a click only while it is rendered and not disabled; each function
  below is a handler behind the condition under which its element is rendered and
  enabled.
\<close>

definition click_color :: "env \<Rightarrow> nat \<Rightarrow> app_state \<Rightarrow> app_state" where
  "click_color e k s =
     (if truthy (selectedText s) \<and> k < length COLORS
      then addHighlight e (bg (COLORS ! k)) s else s)"

definition click_annotate :: "app_state \<Rightarrow> app_state" where
  "click_annotate s =
     (if truthy (selectedText s)
      then s\<lparr>activeNote := [], showAnnotationModal := True\<rparr> else s)"

definition click_clear :: "app_state \<Rightarrow> app_state" where
  "click_clear s =
     (if truthy (selectedText s)
      then s\<lparr>selectedText := [], windowSelection := []\<rparr> else s)"

definition type_note :: "jsstring \<Rightarrow> app_state \<Rightarrow> app_state" where
  "type_note v s = (if showAnnotationModal s then s\<lparr>activeNote := v\<rparr> else s)"

definition click_save :: "env \<Rightarrow> app_state \<Rightarrow> app_state" where
  "click_save e s =
     (if showAnnotationModal s \<and> truthy (trim (activeNote s))
      then saveHighlight e s else s)"

definition click_close :: "app_state \<Rightarrow> app_state" where
  "click_close s = (if showAnnotationModal s then closeAnnotationModal s else s)"

definition click_card :: "nat \<Rightarrow> app_state \<Rightarrow> app_state" where
  "click_card k s =
     (if k < length (highlights s) \<and> truthy_opt (comment (highlights s ! k))
      then openEditModal (highlights s ! k) s else s)"

definition click_trash :: "nat \<Rightarrow> app_state \<Rightarrow> app_state" where
  "click_trash k s =
     (if k < length (highlights s)
      then deleteHighlight (id_hl (highlights s ! k)) s else s)"

definition click_prev :: "app_state \<Rightarrow> app_state" where
  "click_prev s =
     (if pdfDoc s \<noteq> None \<and> \<not> currentPage s \<le> 1 then prevPage s else s)"

definition click_next :: "app_state \<Rightarrow> app_state" where
  "click_next s =
     (if pdfDoc s \<noteq> None \<and>
         \<not> (currentPage s \<ge> numPages s \<or>
            (viewMode s = double \<and> currentPage s \<ge> numPages s - 1))
      then nextPage s else s)"

definition click_viewMode :: "ViewMode \<Rightarrow> app_state \<Rightarrow> app_state" where
  "click_viewMode m s = (if pdfDoc s \<noteq> None then s\<lparr>viewMode := m\<rparr> else s)"

text \<open>
  The events of a session. A document arrives when the asynchronous \<open>onFileChange\<close>
  finishes, which may be in any state. Zooming, which changes only \<open>scale\<close> and
  does so by floating-point steps, and the dictionary panel, which changes only
  \<open>isDictionaryLoading\<close> and \<open>dictionaryResult\<close>, are left out of the events.
\<close>

datatype event =
    FileLoaded "pdf option"
  | MouseUp "jsstring option"
  | ClickColor env nat
  | ClickAnnotate
  | ClickClear
  | TypeNote jsstring
  | ClickSave env
  | ClickClose
  | ClickCard nat
  | ClickTrash nat
  | ClickPrev
  | ClickNext
  | ClickViewMode ViewMode
  | ClickTheme Theme

fun ui_step :: "app_state \<Rightarrow> event \<Rightarrow> app_state" where
  "ui_step s (FileLoaded f) = onFileChange f s"
| "ui_step s (MouseUp sel) = handleMouseUp sel s"
| "ui_step s (ClickColor e k) = click_color e k s"
| "ui_step s ClickAnnotate = click_annotate s"
| "ui_step s ClickClear = click_clear s"
| "ui_step s (TypeNote v) = type_note v s"
| "ui_step s (ClickSave e) = click_save e s"
| "ui_step s ClickClose = click_close s"
| "ui_step s (ClickCard k) = click_card k s"
| "ui_step s (ClickTrash k) = click_trash k s"
| "ui_step s ClickPrev = click_prev s"
| "ui_step s ClickNext = click_next s"
| "ui_step s (ClickViewMode m) = click_viewMode m s"
| "ui_step s (ClickTheme t) = s\<lparr>theme := t\<rparr>"

definition run :: "app_state \<Rightarrow> event list \<Rightarrow> app_state" where
  "run s evs = foldl ui_step s evs"




section \<open>Predicates used in the properties\<close>


text \<open>The page number a call of the trace is about.\<close>

definition page_of :: "effect \<Rightarrow> int" where
  "page_of x = (case x of GetPage k \<Rightarrow> k | Resize c k z \<Rightarrow> k | Render c k z \<Rightarrow> k)"

definition ids :: "app_state \<Rightarrow> jsstring list" where
  "ids s = map id_hl (highlights s)"

text \<open>
  An event is fresh in a state when the id it generates for a new record, if it
  creates one, is not an id of the collection; a run is fresh when each event is
  fresh in the state it meets.
\<close>

fun fresh_event :: "app_state \<Rightarrow> event \<Rightarrow> bool" where
  "fresh_event s (ClickColor e k) = (new_id e \<notin> set (ids s))"
| "fresh_event s (ClickSave e) =
     (truthy_opt (editingHighlightId s) \<or> new_id e \<notin> set (ids s))"
| "fresh_event s ev = True"

fun fresh_run :: "app_state \<Rightarrow> event list \<Rightarrow> bool" where
  "fresh_run s [] = True"
| "fresh_run s (ev # evs) = (fresh_event s ev \<and> fresh_run (ui_step s ev) evs)"


section \<open>Pagination\<close>







lemma click_next_odd:
  "viewMode s = double \<Longrightarrow> odd (currentPage s) \<Longrightarrow> odd (currentPage (click_next s))"
  by (auto simp: click_next_def nextPage_def step_of_def min_def)

lemma click_prev_odd:
  "viewMode s = double \<Longrightarrow> odd (currentPage s) \<Longrightarrow> odd (currentPage (click_prev s))"
  by (auto simp: click_prev_def prevPage_def step_of_def max_def)

lemma click_nav_viewMode:
  "viewMode (click_next s) = viewMode s" "viewMode (click_prev s) = viewMode s"
  by (simp_all add: click_next_def click_prev_def nextPage_def prevPage_def)

lemma buttons_keep_odd:
  "set evs \<subseteq> {ClickPrev, ClickNext} \<Longrightarrow> viewMode s = double \<Longrightarrow> odd (currentPage s) \<Longrightarrow>
   viewMode (run s evs) = double \<and> odd (currentPage (run s evs))"
  unfolding run_def
proof (induction evs arbitrary: s)
  case Nil
  then show ?case by simp
next
  case (Cons e evs)
  from Cons.prems(1) have e: "e = ClickPrev \<or> e = ClickNext"
    and r: "set evs \<subseteq> {ClickPrev, ClickNext}"
    by auto
  from e Cons.prems(2,3)
  have "viewMode (ui_step s e) = double \<and> odd (currentPage (ui_step s e))"
    by (auto simp: click_next_odd click_prev_odd click_nav_viewMode)
  with Cons.IH [OF r] show ?case by simp
qed

text \<open>
  C4, as stated, fails: the claim has double mode always start its pair at an odd
  page. After one page forward in single mode and a switch to double mode, the
  pair starts at page 2.
\<close>

theorem double_pair_counterexample:
  "viewMode (run init_state
      [FileLoaded (Some \<lparr>pdf_numPages = 5\<rparr>), ClickViewMode single, ClickNext,
       ClickViewMode double]) = double \<and>
   currentPage (run init_state
      [FileLoaded (Some \<lparr>pdf_numPages = 5\<rparr>), ClickViewMode single, ClickNext,
       ClickViewMode double]) = 2 \<and>
   \<not> odd (currentPage (run init_state
      [FileLoaded (Some \<lparr>pdf_numPages = 5\<rparr>), ClickViewMode single, ClickNext,
       ClickViewMode double]))"
  by (simp add: run_def init_state_def onFileChange_def click_viewMode_def click_next_def
      nextPage_def step_of_def)

text \<open>
  C4, amended. In every state \<open>nextPage\<close> adds and \<open>prevPage\<close> subtracts 2 in double
  mode and 1 in single mode, the result clamped at \<open>numPages\<close> and at 1, and nothing
  else changes. In double mode the pair starts at an odd page as long as the state
  started at an odd page in double mode and only the previous and next buttons were
  used since; nothing is promised after a switch of view mode.
\<close>

theorem navigation_step:
  "(viewMode s = double \<longrightarrow>
      nextPage s = s\<lparr>currentPage := min (currentPage s + 2) (numPages s)\<rparr> \<and>
      prevPage s = s\<lparr>currentPage := max (currentPage s - 2) 1\<rparr>) \<and>
   (viewMode s = single \<longrightarrow>
      nextPage s = s\<lparr>currentPage := min (currentPage s + 1) (numPages s)\<rparr> \<and>
      prevPage s = s\<lparr>currentPage := max (currentPage s - 1) 1\<rparr>) \<and>
   (set evs \<subseteq> {ClickPrev, ClickNext} \<and> viewMode s = double \<and> odd (currentPage s) \<longrightarrow>
      viewMode (run s evs) = double \<and> odd (currentPage (run s evs)))"
  using buttons_keep_odd [of evs s]
  by (simp add: nextPage_def prevPage_def step_of_def)

theorem navigation_step_witness:
  "viewMode (onFileChange (Some \<lparr>pdf_numPages = 7\<rparr>) init_state) = double \<and>
   odd (currentPage (onFileChange (Some \<lparr>pdf_numPages = 7\<rparr>) init_state)) \<and>
   set [ClickNext, ClickNext, ClickPrev] \<subseteq> {ClickPrev, ClickNext} \<and>
   nextPage (onFileChange (Some \<lparr>pdf_numPages = 7\<rparr>) init_state) =
     (onFileChange (Some \<lparr>pdf_numPages = 7\<rparr>) init_state)\<lparr>currentPage := 3\<rparr> \<and>
   viewMode ((onFileChange (Some \<lparr>pdf_numPages = 7\<rparr>) init_state)\<lparr>viewMode := single\<rparr>)
     = single \<and>
   nextPage ((onFileChange (Some \<lparr>pdf_numPages = 7\<rparr>) init_state)\<lparr>viewMode := single\<rparr>) =
     (onFileChange (Some \<lparr>pdf_numPages = 7\<rparr>) init_state)
       \<lparr>viewMode := single, currentPage := 2\<rparr> \<and>
   odd (currentPage (run (onFileChange (Some \<lparr>pdf_numPages = 7\<rparr>) init_state)
      [ClickNext, ClickNext, ClickPrev]))"
  using navigation_step [of "onFileChange (Some \<lparr>pdf_numPages = 7\<rparr>) init_state"
      "[ClickNext, ClickNext, ClickPrev]"]
    navigation_step
      [of "(onFileChange (Some \<lparr>pdf_numPages = 7\<rparr>) init_state)\<lparr>viewMode := single\<rparr>" "[]"]
  by (simp add: onFileChange_def init_state_def)

section \<open>Loading a document\<close>

text \<open>
  C8, as stated, fails: the claim has a load reset \<open>viewMode\<close> and \<open>scale\<close> to their
  initial values. A load that arrives after the view mode was set to single leaves it
  single, and a scale of 3.0 stays 3.0.
\<close>

theorem load_keeps_view_counterexample:
  "viewMode (onFileChange (Some \<lparr>pdf_numPages = 7\<rparr>)
      (run init_state [FileLoaded (Some \<lparr>pdf_numPages = 3\<rparr>), ClickViewMode single]))
     \<noteq> viewMode init_state \<and>
   scale (onFileChange (Some \<lparr>pdf_numPages = 7\<rparr>)
      (init_state\<lparr>scale := 0x4008000000000000\<rparr>))
     \<noteq> scale init_state"
  by (simp add: run_def init_state_def onFileChange_def click_viewMode_def scale_init_def)

text \<open>
  C8, amended. Loading a document sets \<open>currentPage\<close> to 1, \<open>numPages\<close> to the page
  count of the new document and \<open>pdfDoc\<close> to the document; \<open>scale\<close>, \<open>viewMode\<close> and
  every other field keep their values. An event without a file changes nothing.
\<close>

theorem load_document:
  "currentPage (onFileChange (Some p) s) = 1 \<and>
   numPages (onFileChange (Some p) s) = pdf_numPages p \<and>
   pdfDoc (onFileChange (Some p) s) = Some p \<and>
   scale (onFileChange (Some p) s) = scale s \<and>
   viewMode (onFileChange (Some p) s) = viewMode s \<and>
   onFileChange (Some p) s =
     s\<lparr>pdfDoc := Some p, numPages := pdf_numPages p, currentPage := 1\<rparr> \<and>
   onFileChange None s = s"
  by (simp add: onFileChange_def)

section \<open>Rendering\<close>

lemma renderPage_guard:
  "pdfDoc s = None \<or> cv = None \<or> n < 1 \<or> n > numPages s \<Longrightarrow> renderPage s n cv = []"
  by (auto simp: renderPage_def split: option.splits)

lemma renderPage_pages:
  "x \<in> set (renderPage s n cv) \<Longrightarrow>
   page_of x = n \<and> 1 \<le> n \<and> n \<le> numPages s \<and> pdfDoc s \<noteq> None \<and> cv \<noteq> None"
proof (cases "pdfDoc s")
  case None
  assume "x \<in> set (renderPage s n cv)"
  with None show ?thesis by (simp add: renderPage_def)
next
  case (Some d)
  assume x: "x \<in> set (renderPage s n cv)"
  show ?thesis
  proof (cases cv)
    case None
    with Some x show ?thesis by (simp add: renderPage_def)
  next
    case (Some c)
    with \<open>pdfDoc s = Some d\<close> x show ?thesis
      by (auto simp: renderPage_def page_of_def split: if_splits)
  qed
qed

lemma render_effect_pages:
  "x \<in> set (render_effect s c1 c2) \<Longrightarrow>
   1 \<le> page_of x \<and> page_of x \<le> numPages s \<and> pdfDoc s \<noteq> None"
  by (auto simp: render_effect_def split: if_splits dest: renderPage_pages)

lemma renderPage_requests:
  "pdfDoc s = Some d \<Longrightarrow> 1 \<le> n \<Longrightarrow> n \<le> numPages s \<Longrightarrow>
   GetPage n \<in> set (renderPage s n (Some c))"
  by (simp add: renderPage_def)

text \<open>
  C10. \<open>renderPage\<close> makes no call at all when no document is loaded, the canvas is
  absent or the page number is below 1 or above \<open>numPages\<close>; every call it makes is
  about the requested page, which then lies between 1 and \<open>numPages\<close> of a loaded
  document with a canvas present, and within that range the page is requested. The
  render effect makes calls only about pages between 1 and \<open>numPages\<close>; in double mode
  at the last page it does not request the page after it.
\<close>

theorem renderPage_in_range:
  "(pdfDoc s = None \<or> cv = None \<or> n < 1 \<or> n > numPages s \<longrightarrow> renderPage s n cv = []) \<and>
   (\<forall>x \<in> set (renderPage s n cv).
      page_of x = n \<and> 1 \<le> n \<and> n \<le> numPages s \<and> pdfDoc s \<noteq> None \<and> cv \<noteq> None) \<and>
   (pdfDoc s \<noteq> None \<and> 1 \<le> n \<and> n \<le> numPages s \<longrightarrow>
      GetPage n \<in> set (renderPage s n (Some c))) \<and>
   (\<forall>x \<in> set (render_effect s c1 c2). 1 \<le> page_of x \<and> page_of x \<le> numPages s) \<and>
   (viewMode s = double \<and> currentPage s = numPages s \<longrightarrow>
      GetPage (numPages s + 1) \<notin> set (render_effect s c1 c2))"
proof (intro conjI impI ballI)
  assume "pdfDoc s = None \<or> cv = None \<or> n < 1 \<or> n > numPages s"
  then show "renderPage s n cv = []"
    by (rule renderPage_guard)
next
  assume "pdfDoc s \<noteq> None \<and> 1 \<le> n \<and> n \<le> numPages s"
  then show "GetPage n \<in> set (renderPage s n (Some c))"
    by (auto intro: renderPage_requests)
next
  show "GetPage (numPages s + 1) \<notin> set (render_effect s c1 c2)"
  proof
    assume "GetPage (numPages s + 1) \<in> set (render_effect s c1 c2)"
    from render_effect_pages [OF this] show False
      by (simp add: page_of_def)
  qed
qed (auto dest: renderPage_pages render_effect_pages)

theorem renderPage_in_range_witness:
  "numPages (run init_state [FileLoaded (Some \<lparr>pdf_numPages = 3\<rparr>), ClickNext]) < 4 \<and>
   renderPage (run init_state [FileLoaded (Some \<lparr>pdf_numPages = 3\<rparr>), ClickNext]) 4
     (Some \<lparr>canvas_id = 2, has_context = True\<rparr>) = [] \<and>
   viewMode (run init_state [FileLoaded (Some \<lparr>pdf_numPages = 3\<rparr>), ClickNext]) = double \<and>
   currentPage (run init_state [FileLoaded (Some \<lparr>pdf_numPages = 3\<rparr>), ClickNext]) =
     numPages (run init_state [FileLoaded (Some \<lparr>pdf_numPages = 3\<rparr>), ClickNext]) \<and>
   GetPage 3 \<in> set (renderPage
     (run init_state [FileLoaded (Some \<lparr>pdf_numPages = 3\<rparr>), ClickNext]) 3
     (Some \<lparr>canvas_id = 1, has_context = True\<rparr>)) \<and>
   GetPage 4 \<notin> set (render_effect
     (run init_state [FileLoaded (Some \<lparr>pdf_numPages = 3\<rparr>), ClickNext])
     (Some \<lparr>canvas_id = 1, has_context = True\<rparr>) (Some \<lparr>canvas_id = 2, has_context = True\<rparr>)) \<and>
   render_effect
     (run init_state [FileLoaded (Some \<lparr>pdf_numPages = 3\<rparr>), ClickNext])
     (Some \<lparr>canvas_id = 1, has_context = True\<rparr>) (Some \<lparr>canvas_id = 2, has_context = True\<rparr>) =
     [GetPage 3, Resize 1 3 scale_init, Render 1 3 scale_init]"
  using renderPage_in_range
    [of "run init_state [FileLoaded (Some \<lparr>pdf_numPages = 3\<rparr>), ClickNext]"
      "Some \<lparr>canvas_id = 2, has_context = True\<rparr>" 4
      "\<lparr>canvas_id = 1, has_context = True\<rparr>"
      "Some \<lparr>canvas_id = 1, has_context = True\<rparr>" "Some \<lparr>canvas_id = 2, has_context = True\<rparr>"]
    renderPage_in_range
    [of "run init_state [FileLoaded (Some \<lparr>pdf_numPages = 3\<rparr>), ClickNext]"
      "Some \<lparr>canvas_id = 1, has_context = True\<rparr>" 3
      "\<lparr>canvas_id = 1, has_context = True\<rparr>"
      "Some \<lparr>canvas_id = 1, has_context = True\<rparr>" "Some \<lparr>canvas_id = 2, has_context = True\<rparr>"]
  by (simp add: run_def init_state_def onFileChange_def click_next_def nextPage_def
      step_of_def renderPage_def render_effect_def)

section \<open>Annotation store\<close>

lemma trim_Nil_iff: "trim s = [] \<longleftrightarrow> (\<forall>c\<in>set s. is_white c)"
proof
  assume "trim s = []"
  then have "\<forall>c\<in>set (dropWhile is_white s). is_white c"
    by (simp add: trim_def)
  then have "dropWhile is_white s = []"
    by (cases "dropWhile is_white s") (auto simp: dropWhile_eq_Cons_conv)
  then show "\<forall>c\<in>set s. is_white c"
    by simp
next
  assume "\<forall>c\<in>set s. is_white c"
  then have d: "dropWhile is_white s = []"
    by simp
  show "trim s = []"
    unfolding trim_def d by simp
qed

lemma map_if_distinct:
  assumes "distinct (map f hs)" and "k < length hs"
  shows "map (\<lambda>h. if f h = f (hs ! k) then g h else h) hs = hs[k := g (hs ! k)]"
proof (rule nth_equalityI)
  show "length (map (\<lambda>h. if f h = f (hs ! k) then g h else h) hs) =
        length (hs[k := g (hs ! k)])"
    by simp
next
  fix j assume "j < length (map (\<lambda>h. if f h = f (hs ! k) then g h else h) hs)"
  then have j: "j < length hs" by simp
  have "f (hs ! j) = f (hs ! k) \<longleftrightarrow> j = k"
    using assms j nth_eq_iff_index_eq [of "map f hs" j k] by simp
  with j show "map (\<lambda>h. if f h = f (hs ! k) then g h else h) hs ! j =
               hs[k := g (hs ! k)] ! j"
    by (simp add: nth_list_update)
qed

lemma filter_distinct:
  assumes "distinct (map f hs)" and "k < length hs"
  shows "filter (\<lambda>x. f x \<noteq> f (hs ! k)) hs = take k hs @ drop (Suc k) hs"
proof -
  have split: "hs = take k hs @ hs ! k # drop (Suc k) hs"
    using assms(2) by (rule id_take_nth_drop)
  have "distinct (map f (take k hs @ hs ! k # drop (Suc k) hs))"
    using assms(1) split by simp
  then have a: "\<forall>x\<in>set (take k hs). f x \<noteq> f (hs ! k)"
    and b: "\<forall>x\<in>set (drop (Suc k) hs). f x \<noteq> f (hs ! k)"
    by (fastforce simp: image_iff)+
  have "filter (\<lambda>x. f x \<noteq> f (hs ! k)) (take k hs @ hs ! k # drop (Suc k) hs) =
        take k hs @ drop (Suc k) hs"
    using a b by (simp add: filter_id_conv)
  with split show ?thesis by simp
qed

text \<open>
  C6. Deleting by id \<open>i\<close> keeps exactly the records whose id is not \<open>i\<close>, each as
  often as before and in the same relative order, and changes no other field of the
  state. Where the ids are pairwise distinct and the record at position \<open>k\<close> has id
  \<open>i\<close>, the result is the collection without position \<open>k\<close>. Where no record has id
  \<open>i\<close> the state is unchanged, and deleting twice is deleting once.
\<close>

theorem delete_by_id:
  "set (highlights (deleteHighlight i s)) = {x \<in> set (highlights s). id_hl x \<noteq> i} \<and>
   subseq (highlights (deleteHighlight i s)) (highlights s) \<and>
   (\<forall>x. id_hl x \<noteq> i \<longrightarrow>
      count_list (highlights (deleteHighlight i s)) x = count_list (highlights s) x) \<and>
   (distinct (map id_hl (highlights s)) \<and> k < length (highlights s) \<and>
      id_hl (highlights s ! k) = i \<longrightarrow>
      highlights (deleteHighlight i s) =
        take k (highlights s) @ drop (Suc k) (highlights s)) \<and>
   ((\<forall>x\<in>set (highlights s). id_hl x \<noteq> i) \<longrightarrow> deleteHighlight i s = s) \<and>
   deleteHighlight i (deleteHighlight i s) = deleteHighlight i s \<and>
   deleteHighlight i s = s\<lparr>highlights := highlights (deleteHighlight i s)\<rparr>"
proof -
  have c: "count_list (filter (\<lambda>x. id_hl x \<noteq> i) hs) x = count_list hs x"
    if "id_hl x \<noteq> i" for hs x
    using that by (induction hs) auto
  have d: "highlights (deleteHighlight i s) =
           take k (highlights s) @ drop (Suc k) (highlights s)"
    if "distinct (map id_hl (highlights s))" "k < length (highlights s)"
      "id_hl (highlights s ! k) = i"
    using filter_distinct [OF that(1,2)] that(3) by (simp add: deleteHighlight_def)
  have e: "deleteHighlight i s = s" if "\<forall>x\<in>set (highlights s). id_hl x \<noteq> i"
    using that by (simp add: deleteHighlight_def filter_id_conv)
  have f: "\<forall>x. id_hl x \<noteq> i \<longrightarrow>
      count_list (highlights (deleteHighlight i s)) x = count_list (highlights s) x"
    by (simp add: deleteHighlight_def c)
  show ?thesis
    using d e f by (simp add: deleteHighlight_def)
qed

theorem delete_by_id_witness:
  "distinct (map id_hl (highlights (run init_state
      [MouseUp (Some (ascii ''casa'')), ClickColor \<lparr>random36 = ascii ''0.a'', now = 1\<rparr> 0,
       MouseUp (Some (ascii ''lar'')), ClickColor \<lparr>random36 = ascii ''0.b'', now = 2\<rparr> 1]))) \<and>
   id_hl (highlights (run init_state
      [MouseUp (Some (ascii ''casa'')), ClickColor \<lparr>random36 = ascii ''0.a'', now = 1\<rparr> 0,
       MouseUp (Some (ascii ''lar'')), ClickColor \<lparr>random36 = ascii ''0.b'', now = 2\<rparr> 1]) ! 0)
     = ascii ''b'' \<and>
   map id_hl (highlights (deleteHighlight (ascii ''b'') (run init_state
      [MouseUp (Some (ascii ''casa'')), ClickColor \<lparr>random36 = ascii ''0.a'', now = 1\<rparr> 0,
       MouseUp (Some (ascii ''lar'')), ClickColor \<lparr>random36 = ascii ''0.b'', now = 2\<rparr> 1])))
     = [ascii ''a''] \<and>
   deleteHighlight (ascii ''z'') (run init_state
      [MouseUp (Some (ascii ''casa'')), ClickColor \<lparr>random36 = ascii ''0.a'', now = 1\<rparr> 0,
       MouseUp (Some (ascii ''lar'')), ClickColor \<lparr>random36 = ascii ''0.b'', now = 2\<rparr> 1])
     = run init_state
      [MouseUp (Some (ascii ''casa'')), ClickColor \<lparr>random36 = ascii ''0.a'', now = 1\<rparr> 0,
       MouseUp (Some (ascii ''lar'')), ClickColor \<lparr>random36 = ascii ''0.b'', now = 2\<rparr> 1]"
proof -
  let ?s = "run init_state
      [MouseUp (Some (ascii ''casa'')), ClickColor \<lparr>random36 = ascii ''0.a'', now = 1\<rparr> 0,
       MouseUp (Some (ascii ''lar'')), ClickColor \<lparr>random36 = ascii ''0.b'', now = 2\<rparr> 1]"
  have hs: "highlights ?s =
    [\<lparr>id_hl = [98], page = 1, text_hl = ascii ''lar'', color = ascii ''bg-blue-200'',
       comment = None, rects = [], timestamp = 2\<rparr>,
     \<lparr>id_hl = [97], page = 1, text_hl = ascii ''casa'', color = ascii ''bg-yellow-200'',
       comment = None, rects = [], timestamp = 1\<rparr>]"
    by (simp add: run_def init_state_def handleMouseUp_def click_color_def addHighlight_def
        COLORS_def new_id_def substr_def truthy_def trim_def ascii_def is_white_def)
  have a: "ascii ''b'' = [98]" "ascii ''z'' = [122]" "ascii ''a'' = [97]"
    by (simp_all add: ascii_def)
  have 1: "distinct (map id_hl (highlights ?s))"
    unfolding hs by simp
  have 2: "id_hl (highlights ?s ! 0) = ascii ''b''"
    unfolding hs a by simp
  have 3: "\<forall>x\<in>set (highlights ?s). id_hl x \<noteq> ascii ''z''"
    unfolding hs a by simp
  have 4: "0 < length (highlights ?s)"
    unfolding hs by simp
  from delete_by_id [of "ascii ''b''" ?s 0] 1 2 4
  have "highlights (deleteHighlight (ascii ''b'') ?s) = take 0 (highlights ?s) @ drop (Suc 0) (highlights ?s)"
    by blast
  then have 5: "map id_hl (highlights (deleteHighlight (ascii ''b'') ?s)) = [ascii ''a'']"
    unfolding hs a by simp
  from delete_by_id [of "ascii ''z''" ?s 0] 3
  have 6: "deleteHighlight (ascii ''z'') ?s = ?s"
    by blast
  from 1 2 5 6 show ?thesis
    by blast
qed

text \<open>
  C7. With the annotation modal open and a note buffer that is empty or holds only
  white space, a click on the save button changes nothing: the state, the collection
  included, is the same and the modal is still open.
\<close>

theorem blank_note_rejected:
  assumes "showAnnotationModal s" and "\<forall>c\<in>set (activeNote s). is_white c"
  shows "click_save e s = s \<and> showAnnotationModal (click_save e s) \<and>
         highlights (click_save e s) = highlights s"
  using assms by (simp add: click_save_def truthy_def trim_Nil_iff)

theorem blank_note_rejected_witness:
  "showAnnotationModal (run init_state
      [MouseUp (Some (ascii ''casa'')), ClickAnnotate, TypeNote [0x20, 0x9, 0xA]]) \<and>
   activeNote (run init_state
      [MouseUp (Some (ascii ''casa'')), ClickAnnotate, TypeNote [0x20, 0x9, 0xA]]) =
     [0x20, 0x9, 0xA] \<and>
   is_white 0x20 \<and> is_white 0x9 \<and> is_white 0xA \<and>
   click_save \<lparr>random36 = ascii ''0.i'', now = 1\<rparr> (run init_state
      [MouseUp (Some (ascii ''casa'')), ClickAnnotate, TypeNote [0x20, 0x9, 0xA]]) =
   run init_state [MouseUp (Some (ascii ''casa'')), ClickAnnotate, TypeNote [0x20, 0x9, 0xA]]"
proof -
  let ?s = "run init_state
      [MouseUp (Some (ascii ''casa'')), ClickAnnotate, TypeNote [0x20, 0x9, 0xA]]"
  have 1: "showAnnotationModal ?s"
    by (simp add: run_def init_state_def handleMouseUp_def click_annotate_def type_note_def
        truthy_def trim_def ascii_def is_white_def)
  have 2: "activeNote ?s = [0x20, 0x9, 0xA]"
    by (simp add: run_def init_state_def handleMouseUp_def click_annotate_def type_note_def
        truthy_def trim_def ascii_def is_white_def)
  have 3: "\<forall>c\<in>set (activeNote ?s). is_white c"
    unfolding 2 by (simp add: is_white_def)
  have 4: "is_white 0x20 \<and> is_white 0x9 \<and> is_white 0xA"
    by (simp add: is_white_def)
  from blank_note_rejected [OF 1 3] 1 2 4 show ?thesis
    by simp
qed

text \<open>
  C3, as stated, fails: the claim has the id of the new record fresh. The id is cut
  from a random number and not compared with the ids in use; when the draw repeats,
  here \<open>0.5\<close>, printed \<open>0.i\<close> in base 36, the new record has the id of a record
  already in the collection.
\<close>

theorem add_highlight_counterexample:
  "id_hl (hd (highlights (click_color \<lparr>random36 = ascii ''0.i'', now = 2\<rparr> 1
      (run init_state
        [FileLoaded (Some \<lparr>pdf_numPages = 3\<rparr>), MouseUp (Some (ascii ''casa'')),
         ClickColor \<lparr>random36 = ascii ''0.i'', now = 1\<rparr> 0,
         MouseUp (Some (ascii ''lar''))]))))
   \<in> set (map id_hl (highlights (run init_state
        [FileLoaded (Some \<lparr>pdf_numPages = 3\<rparr>), MouseUp (Some (ascii ''casa'')),
         ClickColor \<lparr>random36 = ascii ''0.i'', now = 1\<rparr> 0,
         MouseUp (Some (ascii ''lar''))])))"
  by (simp add: run_def init_state_def onFileChange_def handleMouseUp_def click_color_def
      addHighlight_def COLORS_def new_id_def substr_def truthy_def trim_def ascii_def
      is_white_def)

text \<open>
  C3, amended. \<open>addHighlight\<close> with color \<open>c\<close> puts first a new record with the
  current page, the selected text, color \<open>c\<close>, no comment, no rects, the current time
  and, as id, up to nine characters after the first two of the random number's
  base-36 text; the id is fresh when that text is not an id in use. The previous
  records follow unchanged, the selection is cleared and nothing else changes. A
  click on the \<open>k\<close>-th color button with a non-empty selection is this call with the
  color of that button.
\<close>

theorem add_highlight:
  "highlights (addHighlight e c s) =
     \<lparr> id_hl = substr (random36 e) 2 9, page = currentPage s, text_hl = selectedText s,
       color = c, comment = None, rects = [], timestamp = now e \<rparr> # highlights s \<and>
   (substr (random36 e) 2 9 \<notin> set (map id_hl (highlights s)) \<longrightarrow>
      id_hl (hd (highlights (addHighlight e c s))) \<notin> set (map id_hl (highlights s))) \<and>
   tl (highlights (addHighlight e c s)) = highlights s \<and>
   selectedText (addHighlight e c s) = [] \<and>
   windowSelection (addHighlight e c s) = [] \<and>
   addHighlight e c s =
     s\<lparr>highlights := highlights (addHighlight e c s), selectedText := [],
       windowSelection := []\<rparr> \<and>
   (selectedText s \<noteq> [] \<and> k < length COLORS \<longrightarrow>
      click_color e k s = addHighlight e (bg (COLORS ! k)) s)"
  by (simp add: addHighlight_def new_id_def click_color_def truthy_def)

theorem add_highlight_witness:
  "selectedText (run init_state
      [FileLoaded (Some \<lparr>pdf_numPages = 3\<rparr>), MouseUp (Some (ascii ''casa'')),
       ClickColor \<lparr>random36 = ascii ''0.a'', now = 1\<rparr> 0,
       MouseUp (Some (ascii ''lar''))]) \<noteq> [] \<and>
   (1::nat) < length COLORS \<and>
   substr (random36 \<lparr>random36 = ascii ''0.i'', now = 2\<rparr>) 2 9
     \<notin> set (map id_hl (highlights (run init_state
      [FileLoaded (Some \<lparr>pdf_numPages = 3\<rparr>), MouseUp (Some (ascii ''casa'')),
       ClickColor \<lparr>random36 = ascii ''0.a'', now = 1\<rparr> 0,
       MouseUp (Some (ascii ''lar''))]))) \<and>
   map id_hl (highlights (click_color \<lparr>random36 = ascii ''0.i'', now = 2\<rparr> 1
     (run init_state
      [FileLoaded (Some \<lparr>pdf_numPages = 3\<rparr>), MouseUp (Some (ascii ''casa'')),
       ClickColor \<lparr>random36 = ascii ''0.a'', now = 1\<rparr> 0,
       MouseUp (Some (ascii ''lar''))]))) = [ascii ''i'', ascii ''a''] \<and>
   text_hl (hd (highlights (click_color \<lparr>random36 = ascii ''0.i'', now = 2\<rparr> 1
     (run init_state
      [FileLoaded (Some \<lparr>pdf_numPages = 3\<rparr>), MouseUp (Some (ascii ''casa'')),
       ClickColor \<lparr>random36 = ascii ''0.a'', now = 1\<rparr> 0,
       MouseUp (Some (ascii ''lar''))])))) = ascii ''lar''"
proof -
  let ?s = "run init_state
      [FileLoaded (Some \<lparr>pdf_numPages = 3\<rparr>), MouseUp (Some (ascii ''casa'')),
       ClickColor \<lparr>random36 = ascii ''0.a'', now = 1\<rparr> 0,
       MouseUp (Some (ascii ''lar''))]"
  let ?e = "\<lparr>random36 = ascii ''0.i'', now = 2\<rparr>"
  have sel: "selectedText ?s = ascii ''lar''"
    by (simp add: run_def init_state_def onFileChange_def handleMouseUp_def click_color_def
        addHighlight_def COLORS_def new_id_def substr_def truthy_def trim_def ascii_def
        is_white_def)
  have hs: "map id_hl (highlights ?s) = [ascii ''a'']"
    by (simp add: run_def init_state_def onFileChange_def handleMouseUp_def click_color_def
        addHighlight_def COLORS_def new_id_def substr_def truthy_def trim_def ascii_def
        is_white_def)
  have 1: "selectedText ?s \<noteq> []"
    unfolding sel by (simp add: ascii_def)
  have 2: "(1::nat) < length COLORS"
    by (simp add: COLORS_def)
  have 3: "substr (random36 ?e) 2 9 \<notin> set (map id_hl (highlights ?s))"
    unfolding hs by (simp add: substr_def ascii_def)
  have c: "click_color ?e 1 ?s = addHighlight ?e (bg (COLORS ! 1)) ?s"
    using add_highlight [of ?e _ ?s 1] 1 2 by blast
  have h: "highlights (addHighlight ?e (bg (COLORS ! 1)) ?s) =
     \<lparr> id_hl = substr (random36 ?e) 2 9, page = currentPage ?s, text_hl = selectedText ?s,
       color = bg (COLORS ! 1), comment = None, rects = [], timestamp = now ?e \<rparr> #
     highlights ?s"
    using add_highlight [of ?e "bg (COLORS ! 1)" ?s 1] by blast
  have 4: "map id_hl (highlights (click_color ?e 1 ?s)) = [ascii ''i'', ascii ''a'']"
    by (simp only: c h list.map Highlight.select_convs hs)
      (simp add: substr_def ascii_def)
  have 5: "text_hl (hd (highlights (click_color ?e 1 ?s))) = ascii ''lar''"
    unfolding c h by (simp add: sel)
  from 1 2 3 4 5 show ?thesis
    by blast
qed

lemma ids_save_edit:
  "id_hl \<circ> (\<lambda>h. if Some (id_hl h) = v then h\<lparr>comment := c\<rparr> else h) = id_hl"
  by (rule ext) simp

lemma ui_step_distinct:
  assumes "distinct (ids s)" and "fresh_event s ev"
  shows "distinct (ids (ui_step s ev))"
proof (cases ev)
  case (ClickColor e k)
  with assms show ?thesis
    by (auto simp: ids_def click_color_def addHighlight_def)
next
  case (ClickSave e)
  with assms show ?thesis
    by (auto simp: ids_def click_save_def saveHighlight_def closeAnnotationModal_def
        ids_save_edit)
next
  case (ClickTrash k)
  with assms show ?thesis
    by (simp add: ids_def click_trash_def deleteHighlight_def distinct_map_filter)
next
  case (FileLoaded f)
  with assms show ?thesis
    by (simp add: ids_def onFileChange_def split: option.splits)
next
  case (MouseUp sel)
  with assms show ?thesis
    by (simp add: ids_def handleMouseUp_def split: option.splits)
next
  case (ClickCard k)
  with assms show ?thesis
    by (simp add: ids_def click_card_def openEditModal_def)
qed (use assms in \<open>simp_all add: ids_def click_annotate_def click_clear_def type_note_def
      click_close_def closeAnnotationModal_def click_prev_def click_next_def prevPage_def
      nextPage_def click_viewMode_def\<close>)

lemma run_distinct:
  "distinct (ids s) \<Longrightarrow> fresh_run s evs \<Longrightarrow> distinct (ids (run s evs))"
  unfolding run_def
  by (induction evs arbitrary: s) (simp_all add: ui_step_distinct)

text \<open>
  C9, as stated, fails: the claim has the ids of every reachable collection pairwise
  distinct. Two highlights made with the same random draw have the same id.
\<close>

theorem ids_distinct_counterexample:
  "\<not> distinct (map id_hl (highlights (run init_state
      [FileLoaded (Some \<lparr>pdf_numPages = 3\<rparr>),
       MouseUp (Some (ascii ''casa'')), ClickColor \<lparr>random36 = ascii ''0.i'', now = 1\<rparr> 0,
       MouseUp (Some (ascii ''lar'')), ClickColor \<lparr>random36 = ascii ''0.i'', now = 2\<rparr> 0])))"
  by (simp add: run_def init_state_def onFileChange_def handleMouseUp_def click_color_def
      addHighlight_def COLORS_def new_id_def substr_def truthy_def trim_def ascii_def
      is_white_def)

text \<open>
  C9, amended. The ids of the collection are pairwise distinct after every sequence
  of events of a session in which each id generated for a new record, by
  \<open>addHighlight\<close> or by the creating branch of \<open>saveHighlight\<close>, is not an id of the
  collection at that moment. Editing and deleting keep the ids distinct.
\<close>

theorem ids_distinct:
  assumes "fresh_run init_state evs"
  shows "distinct (map id_hl (highlights (run init_state evs)))"
proof -
  have "distinct (ids init_state)"
    by (simp add: ids_def init_state_def)
  from run_distinct [OF this assms] show ?thesis
    by (simp add: ids_def)
qed

theorem ids_distinct_witness:
  "fresh_run init_state
      [FileLoaded (Some \<lparr>pdf_numPages = 3\<rparr>),
       MouseUp (Some (ascii ''casa'')), ClickColor \<lparr>random36 = ascii ''0.a'', now = 1\<rparr> 0,
       MouseUp (Some (ascii ''lar'')), ClickAnnotate, TypeNote (ascii ''n''),
       ClickSave \<lparr>random36 = ascii ''0.b'', now = 2\<rparr>, ClickTrash 1] \<and>
   map id_hl (highlights (run init_state
      [FileLoaded (Some \<lparr>pdf_numPages = 3\<rparr>),
       MouseUp (Some (ascii ''casa'')), ClickColor \<lparr>random36 = ascii ''0.a'', now = 1\<rparr> 0,
       MouseUp (Some (ascii ''lar'')), ClickAnnotate, TypeNote (ascii ''n''),
       ClickSave \<lparr>random36 = ascii ''0.b'', now = 2\<rparr>]))
     = [ascii ''b'', ascii ''a''] \<and>
   distinct (map id_hl (highlights (run init_state
      [FileLoaded (Some \<lparr>pdf_numPages = 3\<rparr>),
       MouseUp (Some (ascii ''casa'')), ClickColor \<lparr>random36 = ascii ''0.a'', now = 1\<rparr> 0,
       MouseUp (Some (ascii ''lar'')), ClickAnnotate, TypeNote (ascii ''n''),
       ClickSave \<lparr>random36 = ascii ''0.b'', now = 2\<rparr>, ClickTrash 1])))"
proof -
  let ?evs = "[FileLoaded (Some \<lparr>pdf_numPages = 3\<rparr>),
       MouseUp (Some (ascii ''casa'')), ClickColor \<lparr>random36 = ascii ''0.a'', now = 1\<rparr> 0,
       MouseUp (Some (ascii ''lar'')), ClickAnnotate, TypeNote (ascii ''n''),
       ClickSave \<lparr>random36 = ascii ''0.b'', now = 2\<rparr>]"
  have 1: "fresh_run init_state (?evs @ [ClickTrash 1])"
    by (simp add: ids_def init_state_def onFileChange_def handleMouseUp_def click_color_def
      addHighlight_def COLORS_def new_id_def substr_def truthy_def truthy_opt_def trim_def
      ascii_def is_white_def click_annotate_def type_note_def click_save_def
      saveHighlight_def closeAnnotationModal_def)
  have 2: "map id_hl (highlights (run init_state ?evs)) = [ascii ''b'', ascii ''a'']"
    by (simp add: run_def init_state_def onFileChange_def handleMouseUp_def click_color_def
      addHighlight_def COLORS_def new_id_def substr_def truthy_def truthy_opt_def trim_def
      ascii_def is_white_def click_annotate_def type_note_def click_save_def
      saveHighlight_def closeAnnotationModal_def)
  from ids_distinct [OF 1] 1 2 show ?thesis
    by simp
qed

text \<open>
  C5, as stated, fails for a collection in which the id of the edited record is not
  its own alone, and for a record whose id is the empty string. With two records made
  from the same random draw, saving the note of the first also replaces the comment
  of the second. With a record made from the draw \<open>0\<close>, whose id is empty, the edit
  is taken for a new annotation: a record is added and the edited one keeps its
  comment.
\<close>

theorem save_edit_counterexample:
  "editingHighlightId (run init_state
        [FileLoaded (Some \<lparr>pdf_numPages = 3\<rparr>),
         MouseUp (Some (ascii ''casa'')), ClickAnnotate, TypeNote (ascii ''a''),
         ClickSave \<lparr>random36 = ascii ''0.i'', now = 1\<rparr>,
         MouseUp (Some (ascii ''lar'')), ClickAnnotate, TypeNote (ascii ''b''),
         ClickSave \<lparr>random36 = ascii ''0.i'', now = 2\<rparr>,
         ClickCard 0, TypeNote (ascii ''c'')])
     = Some (id_hl (highlights (run init_state
        [FileLoaded (Some \<lparr>pdf_numPages = 3\<rparr>),
         MouseUp (Some (ascii ''casa'')), ClickAnnotate, TypeNote (ascii ''a''),
         ClickSave \<lparr>random36 = ascii ''0.i'', now = 1\<rparr>,
         MouseUp (Some (ascii ''lar'')), ClickAnnotate, TypeNote (ascii ''b''),
         ClickSave \<lparr>random36 = ascii ''0.i'', now = 2\<rparr>,
         ClickCard 0, TypeNote (ascii ''c'')]) ! 0)) \<and>
   highlights (saveHighlight \<lparr>random36 = ascii ''0.x'', now = 3\<rparr> (run init_state
        [FileLoaded (Some \<lparr>pdf_numPages = 3\<rparr>),
         MouseUp (Some (ascii ''casa'')), ClickAnnotate, TypeNote (ascii ''a''),
         ClickSave \<lparr>random36 = ascii ''0.i'', now = 1\<rparr>,
         MouseUp (Some (ascii ''lar'')), ClickAnnotate, TypeNote (ascii ''b''),
         ClickSave \<lparr>random36 = ascii ''0.i'', now = 2\<rparr>,
         ClickCard 0, TypeNote (ascii ''c'')])) ! 1
     \<noteq> highlights (run init_state
        [FileLoaded (Some \<lparr>pdf_numPages = 3\<rparr>),
         MouseUp (Some (ascii ''casa'')), ClickAnnotate, TypeNote (ascii ''a''),
         ClickSave \<lparr>random36 = ascii ''0.i'', now = 1\<rparr>,
         MouseUp (Some (ascii ''lar'')), ClickAnnotate, TypeNote (ascii ''b''),
         ClickSave \<lparr>random36 = ascii ''0.i'', now = 2\<rparr>,
         ClickCard 0, TypeNote (ascii ''c'')]) ! 1 \<and>
   editingHighlightId (run init_state
        [FileLoaded (Some \<lparr>pdf_numPages = 3\<rparr>),
         MouseUp (Some (ascii ''casa'')), ClickAnnotate, TypeNote (ascii ''a''),
         ClickSave \<lparr>random36 = ascii ''0'', now = 1\<rparr>,
         ClickCard 0, TypeNote (ascii ''c'')])
     = Some (id_hl (highlights (run init_state
        [FileLoaded (Some \<lparr>pdf_numPages = 3\<rparr>),
         MouseUp (Some (ascii ''casa'')), ClickAnnotate, TypeNote (ascii ''a''),
         ClickSave \<lparr>random36 = ascii ''0'', now = 1\<rparr>,
         ClickCard 0, TypeNote (ascii ''c'')]) ! 0)) \<and>
   map comment (highlights (saveHighlight \<lparr>random36 = ascii ''0.x'', now = 3\<rparr>
      (run init_state
        [FileLoaded (Some \<lparr>pdf_numPages = 3\<rparr>),
         MouseUp (Some (ascii ''casa'')), ClickAnnotate, TypeNote (ascii ''a''),
         ClickSave \<lparr>random36 = ascii ''0'', now = 1\<rparr>,
         ClickCard 0, TypeNote (ascii ''c'')])))
     = [Some (ascii ''c''), Some (ascii ''a'')]"
proof -
  let ?s = "run init_state
        [FileLoaded (Some \<lparr>pdf_numPages = 3\<rparr>),
         MouseUp (Some (ascii ''casa'')), ClickAnnotate, TypeNote (ascii ''a''),
         ClickSave \<lparr>random36 = ascii ''0.i'', now = 1\<rparr>,
         MouseUp (Some (ascii ''lar'')), ClickAnnotate, TypeNote (ascii ''b''),
         ClickSave \<lparr>random36 = ascii ''0.i'', now = 2\<rparr>,
         ClickCard 0, TypeNote (ascii ''c'')]"
  let ?t = "run init_state
        [FileLoaded (Some \<lparr>pdf_numPages = 3\<rparr>),
         MouseUp (Some (ascii ''casa'')), ClickAnnotate, TypeNote (ascii ''a''),
         ClickSave \<lparr>random36 = ascii ''0'', now = 1\<rparr>,
         ClickCard 0, TypeNote (ascii ''c'')]"
  have s: "?s =
    \<lparr>pdfDoc = Some \<lparr>pdf_numPages = 3\<rparr>, numPages = 3, currentPage = 1,
     highlights =
       [\<lparr>id_hl = [105], page = 1, text_hl = [108, 97, 114],
          color = [98, 103, 45, 115, 116, 111, 110, 101, 45, 49, 48, 48],
          comment = Some [98], rects = [], timestamp = 2\<rparr>,
        \<lparr>id_hl = [105], page = 1, text_hl = [99, 97, 115, 97],
          color = [98, 103, 45, 115, 116, 111, 110, 101, 45, 49, 48, 48],
          comment = Some [97], rects = [], timestamp = 1\<rparr>],
     selectedText = [108, 97, 114], isDictionaryLoading = False,
     dictionaryResult = None, showAnnotationModal = True, activeNote = [99],
     editingHighlightId = Some [105], theme = light, viewMode = double,
     scale = scale_init, windowSelection = []\<rparr>"
    by (simp add: run_def init_state_def onFileChange_def handleMouseUp_def
        click_annotate_def type_note_def click_save_def saveHighlight_def
        closeAnnotationModal_def click_card_def openEditModal_def new_id_def substr_def
        truthy_def truthy_opt_def trim_def ascii_def is_white_def)
  have t: "?t =
    \<lparr>pdfDoc = Some \<lparr>pdf_numPages = 3\<rparr>, numPages = 3, currentPage = 1,
     highlights =
       [\<lparr>id_hl = [], page = 1, text_hl = [99, 97, 115, 97],
          color = [98, 103, 45, 115, 116, 111, 110, 101, 45, 49, 48, 48],
          comment = Some [97], rects = [], timestamp = 1\<rparr>],
     selectedText = [99, 97, 115, 97], isDictionaryLoading = False,
     dictionaryResult = None, showAnnotationModal = True, activeNote = [99],
     editingHighlightId = Some [], theme = light, viewMode = double,
     scale = scale_init, windowSelection = []\<rparr>"
    by (simp add: run_def init_state_def onFileChange_def handleMouseUp_def
        click_annotate_def type_note_def click_save_def saveHighlight_def
        closeAnnotationModal_def click_card_def openEditModal_def new_id_def substr_def
        truthy_def truthy_opt_def trim_def ascii_def is_white_def)
  have a: "ascii ''c'' = [99]" "ascii ''a'' = [97]"
    by (simp_all add: ascii_def)
  show ?thesis
    unfolding s t
    by (simp add: a saveHighlight_def closeAnnotationModal_def truthy_opt_def truthy_def)
qed

text \<open>
  C5, amended. While a record with a non-empty id \<open>i\<close> is being edited, saving keeps
  the length and order of the collection, replaces the comment of every record with
  id \<open>i\<close> by the note buffer and leaves every record with another id as it is. Where
  the ids are pairwise distinct and the edited record is at position \<open>k\<close>, only that
  position changes, and there only the comment: id, page, text, color, timestamp and
  rects are the same.
\<close>

theorem save_edit:
  assumes "editingHighlightId s = Some i" and "i \<noteq> []"
  shows "length (highlights (saveHighlight e s)) = length (highlights s) \<and>
   (\<forall>j<length (highlights s).
      highlights (saveHighlight e s) ! j =
        (if id_hl (highlights s ! j) = i
         then (highlights s ! j)\<lparr>comment := Some (activeNote s)\<rparr>
         else highlights s ! j)) \<and>
   (distinct (map id_hl (highlights s)) \<and> k < length (highlights s) \<and>
      id_hl (highlights s ! k) = i \<longrightarrow>
      highlights (saveHighlight e s) =
        (highlights s)[k := (highlights s ! k)\<lparr>comment := Some (activeNote s)\<rparr>] \<and>
      id_hl (highlights (saveHighlight e s) ! k) = id_hl (highlights s ! k) \<and>
      page (highlights (saveHighlight e s) ! k) = page (highlights s ! k) \<and>
      text_hl (highlights (saveHighlight e s) ! k) = text_hl (highlights s ! k) \<and>
      color (highlights (saveHighlight e s) ! k) = color (highlights s ! k) \<and>
      timestamp (highlights (saveHighlight e s) ! k) = timestamp (highlights s ! k) \<and>
      rects (highlights (saveHighlight e s) ! k) = rects (highlights s ! k) \<and>
      comment (highlights (saveHighlight e s) ! k) = Some (activeNote s) \<and>
      (\<forall>j<length (highlights s). j \<noteq> k \<longrightarrow>
         highlights (saveHighlight e s) ! j = highlights s ! j))"
proof -
  have m: "highlights (saveHighlight e s) =
        map (\<lambda>h. if id_hl h = i then h\<lparr>comment := Some (activeNote s)\<rparr> else h)
          (highlights s)"
    using assms
    by (simp add: saveHighlight_def closeAnnotationModal_def truthy_opt_def truthy_def)
  have u: "highlights (saveHighlight e s) =
        (highlights s)[k := (highlights s ! k)\<lparr>comment := Some (activeNote s)\<rparr>]"
    if "distinct (map id_hl (highlights s))" "k < length (highlights s)"
       "id_hl (highlights s ! k) = i"
    using map_if_distinct [OF that(1,2), of "\<lambda>h. h\<lparr>comment := Some (activeNote s)\<rparr>"]
      that(3) m
    by simp
  show ?thesis
  proof (intro conjI impI)
    assume a: "distinct (map id_hl (highlights s)) \<and> k < length (highlights s) \<and>
      id_hl (highlights s ! k) = i"
    then show "highlights (saveHighlight e s) =
        (highlights s)[k := (highlights s ! k)\<lparr>comment := Some (activeNote s)\<rparr>]"
      using u by blast
  qed (use u in \<open>simp_all add: m\<close>)
qed

theorem save_edit_witness:
  "editingHighlightId (run init_state
        [FileLoaded (Some \<lparr>pdf_numPages = 3\<rparr>),
         MouseUp (Some (ascii ''casa'')), ClickAnnotate, TypeNote (ascii ''a''),
         ClickSave \<lparr>random36 = ascii ''0.i'', now = 1\<rparr>,
         MouseUp (Some (ascii ''lar'')), ClickAnnotate, TypeNote (ascii ''b''),
         ClickSave \<lparr>random36 = ascii ''0.j'', now = 2\<rparr>,
         ClickCard 0, TypeNote (ascii ''c'')]) = Some (ascii ''j'') \<and>
   ascii ''j'' \<noteq> [] \<and>
   map id_hl (highlights (run init_state
        [FileLoaded (Some \<lparr>pdf_numPages = 3\<rparr>),
         MouseUp (Some (ascii ''casa'')), ClickAnnotate, TypeNote (ascii ''a''),
         ClickSave \<lparr>random36 = ascii ''0.i'', now = 1\<rparr>,
         MouseUp (Some (ascii ''lar'')), ClickAnnotate, TypeNote (ascii ''b''),
         ClickSave \<lparr>random36 = ascii ''0.j'', now = 2\<rparr>,
         ClickCard 0, TypeNote (ascii ''c'')])) = [ascii ''j'', ascii ''i''] \<and>
   map comment (highlights (saveHighlight \<lparr>random36 = ascii ''0.x'', now = 3\<rparr>
      (run init_state
        [FileLoaded (Some \<lparr>pdf_numPages = 3\<rparr>),
         MouseUp (Some (ascii ''casa'')), ClickAnnotate, TypeNote (ascii ''a''),
         ClickSave \<lparr>random36 = ascii ''0.i'', now = 1\<rparr>,
         MouseUp (Some (ascii ''lar'')), ClickAnnotate, TypeNote (ascii ''b''),
         ClickSave \<lparr>random36 = ascii ''0.j'', now = 2\<rparr>,
         ClickCard 0, TypeNote (ascii ''c'')])))
     = [Some (ascii ''c''), Some (ascii ''a'')]"
proof -
  let ?s = "run init_state
        [FileLoaded (Some \<lparr>pdf_numPages = 3\<rparr>),
         MouseUp (Some (ascii ''casa'')), ClickAnnotate, TypeNote (ascii ''a''),
         ClickSave \<lparr>random36 = ascii ''0.i'', now = 1\<rparr>,
         MouseUp (Some (ascii ''lar'')), ClickAnnotate, TypeNote (ascii ''b''),
         ClickSave \<lparr>random36 = ascii ''0.j'', now = 2\<rparr>,
         ClickCard 0, TypeNote (ascii ''c'')]"
  let ?e = "\<lparr>random36 = ascii ''0.x'', now = 3\<rparr>"
  have s: "?s =
    \<lparr>pdfDoc = Some \<lparr>pdf_numPages = 3\<rparr>, numPages = 3, currentPage = 1,
     highlights =
       [\<lparr>id_hl = [106], page = 1, text_hl = [108, 97, 114],
          color = [98, 103, 45, 115, 116, 111, 110, 101, 45, 49, 48, 48],
          comment = Some [98], rects = [], timestamp = 2\<rparr>,
        \<lparr>id_hl = [105], page = 1, text_hl = [99, 97, 115, 97],
          color = [98, 103, 45, 115, 116, 111, 110, 101, 45, 49, 48, 48],
          comment = Some [97], rects = [], timestamp = 1\<rparr>],
     selectedText = [108, 97, 114], isDictionaryLoading = False,
     dictionaryResult = None, showAnnotationModal = True, activeNote = [99],
     editingHighlightId = Some [106], theme = light, viewMode = double,
     scale = scale_init, windowSelection = []\<rparr>"
    by (simp add: run_def init_state_def onFileChange_def handleMouseUp_def
        click_annotate_def type_note_def click_save_def saveHighlight_def
        closeAnnotationModal_def click_card_def openEditModal_def new_id_def substr_def
        truthy_def truthy_opt_def trim_def ascii_def is_white_def)
  have a: "ascii ''c'' = [99]" "ascii ''a'' = [97]" "ascii ''j'' = [106]" "ascii ''i'' = [105]"
    by (simp_all add: ascii_def)
  have 1: "editingHighlightId ?s = Some (ascii ''j'')"
    unfolding s by (simp add: a)
  have 2: "ascii ''j'' \<noteq> []"
    unfolding a by simp
  have 3: "map id_hl (highlights ?s) = [ascii ''j'', ascii ''i'']"
    unfolding s by (simp add: a)
  have 4: "distinct (map id_hl (highlights ?s)) \<and> 0 < length (highlights ?s) \<and>
      id_hl (highlights ?s ! 0) = ascii ''j''"
    unfolding s by (simp add: a)
  from save_edit [OF 1 2, of ?e 0] 4
  have "highlights (saveHighlight ?e ?s) =
        (highlights ?s)[0 := (highlights ?s ! 0)\<lparr>comment := Some (activeNote ?s)\<rparr>]"
    by blast
  then have 5: "map comment (highlights (saveHighlight ?e ?s)) =
      [Some (ascii ''c''), Some (ascii ''a'')]"
    unfolding s by (simp add: a)
  from 1 2 3 5 show ?thesis
    by blast
qed

section \<open>Lookup client\<close>



end
